theory Spec2Isabelle
  imports Main "HOL-Library.Multiset"
begin

section \<open>Go strings, UTF-8 and the \<open>strings\<close> package\<close>

text \<open>
  A Go \<open>string\<close> is a sequence of bytes; it is modelled as \<^typ>\<open>string\<close> (a list of
  \<^typ>\<open>char\<close>, one \<^typ>\<open>char\<close> per byte), so that \<open>len(s)\<close> is \<^term>\<open>length s\<close>
  and \<open>len([]byte(s))\<close> is the same number. The functions of Go's standard library that
  \<open>cmd/server/main.go\<close> calls are modelled from their documented behaviour; white space
  is Unicode white space, read from the UTF-8 encoding as Go decodes it.
\<close>

definition RuneError :: nat where
  "RuneError = 0xFFFD"

definition RuneSelf :: nat where
  "RuneSelf = 0x80"

text \<open>
  \<open>utf8.first\<close> and \<open>utf8.acceptRanges\<close>: for a leading byte of a multi-byte
  encoding, the length of the encoding and the range the second byte must lie in;
  \<open>None\<close> for a byte that starts no encoding (continuation bytes, \<open>0xC0\<close>, \<open>0xC1\<close>,
  \<open>0xF5\<close> and above).
\<close>

definition first :: "nat \<Rightarrow> (nat \<times> nat \<times> nat) option" where
  "first s0 =
     (if 0xC2 \<le> s0 \<and> s0 \<le> 0xDF then Some (2, 0x80, 0xBF)
      else if s0 = 0xE0 then Some (3, 0xA0, 0xBF)
      else if 0xE1 \<le> s0 \<and> s0 \<le> 0xEC then Some (3, 0x80, 0xBF)
      else if s0 = 0xED then Some (3, 0x80, 0x9F)
      else if 0xEE \<le> s0 \<and> s0 \<le> 0xEF then Some (3, 0x80, 0xBF)
      else if s0 = 0xF0 then Some (4, 0x90, 0xBF)
      else if 0xF1 \<le> s0 \<and> s0 \<le> 0xF3 then Some (4, 0x80, 0xBF)
      else if s0 = 0xF4 then Some (4, 0x80, 0x8F)
      else None)"

text \<open>
  \<open>utf8.DecodeRuneInString\<close> on the byte values of a string: the first code point and
  the number of bytes it takes; an invalid encoding is \<open>(RuneError, 1)\<close>, the empty
  string \<open>(RuneError, 0)\<close>. The masks \<open>0x1F\<close>, \<open>0x0F\<close>, \<open>0x07\<close>, \<open>0x3F\<close> are written
  as remainders, the shifts as products.
\<close>

definition DecodeRune :: "nat list \<Rightarrow> nat \<times> nat" where
  "DecodeRune s =
     (let n = length s in
      if n < 1 then (RuneError, 0)
      else
        let s0 = s ! 0 in
        if s0 < RuneSelf then (s0, 1)
        else
          case first s0 of
            None \<Rightarrow> (RuneError, 1)
          | Some (sz, lo, hi) \<Rightarrow>
              if n < sz then (RuneError, 1)
              else
                let s1 = s ! 1 in
                if s1 < lo \<or> hi < s1 then (RuneError, 1)
                else if sz \<le> 2 then (s0 mod 32 * 64 + s1 mod 64, 2)
                else
                  let s2 = s ! 2 in
                  if s2 < 0x80 \<or> 0xBF < s2 then (RuneError, 1)
                  else if sz \<le> 3 then (s0 mod 16 * 4096 + s1 mod 64 * 64 + s2 mod 64, 3)
                  else
                    let s3 = s ! 3 in
                    if s3 < 0x80 \<or> 0xBF < s3 then (RuneError, 1)
                    else (s0 mod 8 * 262144 + s1 mod 64 * 4096 + s2 mod 64 * 64 + s3 mod 64, 4))"

definition bytes_of :: "string \<Rightarrow> nat list" where
  "bytes_of s = map of_char s"

lemma DecodeRune_width_pos: "s \<noteq> [] \<Longrightarrow> 0 < snd (DecodeRune s)"
  by (auto simp: DecodeRune_def Let_def split: option.splits)

text \<open>
  The runes of a string, as \<open>for i, r := range s\<close> yields them: each code point with the
  bytes it was decoded from.
\<close>

function runes :: "string \<Rightarrow> (nat \<times> string) list" where
  "runes s =
     (if s = [] then []
      else (fst (DecodeRune (bytes_of s)), take (snd (DecodeRune (bytes_of s))) s)
             # runes (drop (snd (DecodeRune (bytes_of s))) s))"
  by pat_completeness auto
termination
proof (relation "measure length")
  show "wf (measure length)" by simp
next
  fix s :: string
  assume "s \<noteq> []"
  then have "0 < snd (DecodeRune (bytes_of s))"
    by (simp add: DecodeRune_width_pos bytes_of_def)
  with \<open>s \<noteq> []\<close> show "(drop (snd (DecodeRune (bytes_of s))) s, s) \<in> measure length"
    by simp
qed

text \<open>\<open>unicode.IsSpace\<close>: the Latin-1 cases of its switch, then the \<open>White_Space\<close> table.\<close>

definition IsSpace :: "nat \<Rightarrow> bool" where
  "IsSpace r =
     (if r \<le> 0xFF then r = 9 \<or> r = 10 \<or> r = 11 \<or> r = 12 \<or> r = 13 \<or> r = 32 \<or> r = 0x85 \<or> r = 0xA0
      else r = 0x1680 \<or> (0x2000 \<le> r \<and> r \<le> 0x200A) \<or> (0x2028 \<le> r \<and> r \<le> 0x2029)
           \<or> r = 0x202F \<or> r = 0x205F \<or> r = 0x3000)"

text \<open>
  \<open>strings.FieldsFunc\<close>: the loop over the runes of the string. \<open>start\<close> is \<open>None\<close>
  outside a field (\<open>start < 0\<close> in Go) and holds the bytes of the field read so far
  inside one.
\<close>

fun FieldsFunc_loop :: "(nat \<Rightarrow> bool) \<Rightarrow> (nat \<times> string) list \<Rightarrow> string option \<Rightarrow> string list" where
  "FieldsFunc_loop f [] None = []"
| "FieldsFunc_loop f [] (Some cur) = [cur]"
| "FieldsFunc_loop f ((r, bs) # rs) None =
     (if f r then FieldsFunc_loop f rs None else FieldsFunc_loop f rs (Some bs))"
| "FieldsFunc_loop f ((r, bs) # rs) (Some cur) =
     (if f r then cur # FieldsFunc_loop f rs None else FieldsFunc_loop f rs (Some (cur @ bs)))"

definition FieldsFunc :: "string \<Rightarrow> (nat \<Rightarrow> bool) \<Rightarrow> string list" where
  "FieldsFunc s f = FieldsFunc_loop f (runes s) None"

definition Fields :: "string \<Rightarrow> string list" where
  "Fields s = FieldsFunc s IsSpace"

text \<open>
  \<open>strings.TrimSpace\<close> removes all leading and trailing white space, as
  \<open>TrimRightFunc(TrimLeftFunc(s, unicode.IsSpace), unicode.IsSpace)\<close>. Both are given on
  the runes of the string read from the left; Go reads the trailing runes from the
  right (\<open>utf8.DecodeLastRuneInString\<close>) and finds the same ones.
\<close>

definition TrimLeftFunc :: "string \<Rightarrow> (nat \<Rightarrow> bool) \<Rightarrow> string" where
  "TrimLeftFunc s f = concat (map snd (dropWhile (\<lambda>x. f (fst x)) (runes s)))"

definition TrimRightFunc :: "string \<Rightarrow> (nat \<Rightarrow> bool) \<Rightarrow> string" where
  "TrimRightFunc s f = concat (map snd (rev (dropWhile (\<lambda>x. f (fst x)) (rev (runes s)))))"

definition TrimSpace :: "string \<Rightarrow> string" where
  "TrimSpace s = TrimRightFunc (TrimLeftFunc s IsSpace) IsSpace"

definition HasPrefix :: "string \<Rightarrow> string \<Rightarrow> bool" where
  "HasPrefix s prefix = (length prefix \<le> length s \<and> take (length prefix) s = prefix)"

definition TrimPrefix :: "string \<Rightarrow> string \<Rightarrow> string" where
  "TrimPrefix s prefix = (if HasPrefix s prefix then drop (length prefix) s else s)"

fun Join :: "string list \<Rightarrow> string \<Rightarrow> string" where
  "Join [] sep = []"
| "Join [x] sep = x"
| "Join (x # y # ys) sep = x @ sep @ Join (y # ys) sep"

section \<open>Integer scanning and printing\<close>

text \<open>
  \<open>strconv.ParseUint(s, 10, 64)\<close>: every byte must be a decimal digit (with base 10 an
  underscore is a syntax error) and the string must not be empty. The value is
  accumulated without a bound here; \<open>ParseInt\<close> below rejects every value out of range,
  as Go does through \<open>ErrRange\<close>, so only whether an error is returned is kept.
\<close>

fun ParseUint_loop :: "string \<Rightarrow> nat \<Rightarrow> nat option" where
  "ParseUint_loop [] n = Some n"
| "ParseUint_loop (c # cs) n =
     (let d = (of_char c :: nat) in
      if 48 \<le> d \<and> d \<le> 57 then ParseUint_loop cs (n * 10 + (d - 48)) else None)"

definition ParseUint :: "string \<Rightarrow> nat option" where
  "ParseUint s = (if s = [] then None else ParseUint_loop s 0)"

text \<open>
  \<open>strconv.ParseInt(s, 10, 64)\<close>: an optional sign, then \<open>ParseUint\<close>, then the range
  check against \<open>cutoff = 1 << 63\<close>, which is 9223372036854775808. \<open>None\<close> stands for a non-nil error.
\<close>

definition ParseInt :: "string \<Rightarrow> int option" where
  "ParseInt s =
     (if s = [] then None
      else
        let neg = (hd s = CHR ''-'');
            s' = (if hd s = CHR ''+'' \<or> hd s = CHR ''-'' then tl s else s)
        in case ParseUint s' of
             None \<Rightarrow> None
           | Some un \<Rightarrow>
               if \<not> neg \<and> un \<ge> 9223372036854775808 then None
               else if neg \<and> un > 9223372036854775808 then None
               else Some (if neg then - int un else int un))"

text \<open>
  The scanner of package \<open>fmt\<close>, as \<open>fmt.Sscanf(tok, "%d", &ai)\<close> runs it. Its input is
  the runes of the string. \<open>SkipSpace\<close> (with \<open>nlIsSpace = false\<close>) skips white space and
  fails on a newline; \<open>accept\<close> moves one rune of the given set to the buffer. The
  scanner's white space table is the same set as \<open>unicode.IsSpace\<close>. The scanner reads
  at most \<open>1 << 30\<close> runes of an operand; that bound is not modelled.
\<close>

fun SkipSpace :: "(nat \<times> string) list \<Rightarrow> (nat \<times> string) list option" where
  "SkipSpace [] = Some []"
| "SkipSpace ((r, bs) # rs) =
     (if r = 13 \<and> rs \<noteq> [] \<and> fst (hd rs) = 10 then SkipSpace rs
      else if r = 10 then None
      else if \<not> IsSpace r then Some ((r, bs) # rs)
      else SkipSpace rs)"

definition accept :: "string \<Rightarrow> string \<times> (nat \<times> string) list \<Rightarrow> bool \<times> string \<times> (nat \<times> string) list" where
  "accept ok st =
     (case snd st of
        [] \<Rightarrow> (False, st)
      | (r, bs) # rs \<Rightarrow> if r \<in> set (bytes_of ok) then (True, fst st @ bs, rs) else (False, st))"

fun accept_all :: "string \<Rightarrow> string \<Rightarrow> (nat \<times> string) list \<Rightarrow> string" where
  "accept_all ok buf [] = buf"
| "accept_all ok buf ((r, bs) # rs) =
     (if r \<in> set (bytes_of ok) then accept_all ok (buf @ bs) rs else buf)"

text \<open>
  \<open>scanNumber(digits, false)\<close> with \<open>digits = "0123456789"\<close>, the digits that
  \<open>getBase\<close> returns for the verb \<open>d\<close> (the underscore is a digit for the verb \<open>v\<close>
  only): at least one rune of \<open>digits\<close>, then all that follow; the result is the
  buffer, sign included.
\<close>

definition scanNumber :: "string \<times> (nat \<times> string) list \<Rightarrow> string option" where
  "scanNumber st =
     (if snd st = [] then None
      else case accept ''0123456789'' st of
             (False, _) \<Rightarrow> None
           | (True, buf, rest) \<Rightarrow> Some (accept_all ''0123456789'' buf rest))"

text \<open>
  \<open>scanInt('d', 64)\<close>: skip white space, fail at the end of the input, accept one sign,
  scan the number and convert it with \<open>ParseInt\<close>. With 64 bits the final overflow test
  \<open>x != i\<close> never fires.
\<close>

definition scanInt :: "(nat \<times> string) list \<Rightarrow> int option" where
  "scanInt inp =
     (case SkipSpace inp of
        None \<Rightarrow> None
      | Some inp1 \<Rightarrow>
          if inp1 = [] then None
          else
            case scanNumber (snd (accept ''+-'' ([], inp1))) of
              None \<Rightarrow> None
            | Some tok \<Rightarrow> ParseInt tok)"

text \<open>
  \<open>fmt.Sscanf(str, "%d", &v)\<close>: \<open>doScanf\<close> skips white space before the verb and scans
  one integer. The format ends there, and what is left of the input is not looked
  at. The result is the value stored, or \<open>None\<close> when the error returned is not nil.
\<close>

definition Sscanf_d :: "string \<Rightarrow> int option" where
  "Sscanf_d str =
     (case SkipSpace (runes str) of
        None \<Rightarrow> None
      | Some inp \<Rightarrow> scanInt inp)"

text \<open>\<open>fmt.Sprintf("%d", x)\<close>: the decimal digits, most significant first, after a minus sign.\<close>

fun formatBits :: "nat \<Rightarrow> string" where
  "formatBits u =
     (if u < 10 then [''0123456789'' ! u]
      else formatBits (u div 10) @ [''0123456789'' ! (u mod 10)])"

definition Sprintf_d :: "int \<Rightarrow> string" where
  "Sprintf_d x = (if x < 0 then CHR ''-'' # formatBits (nat (- x)) else formatBits (nat x))"

text \<open>
  Go's \<open>int\<close> is a 64-bit two's complement integer on the platforms the server is built
  for; \<open>+\<close> and \<open>*\<close> wrap around. \<open>int64\<close> is the value a mathematical integer wraps to
  (\<open>2 ^ 63 = 9223372036854775808\<close>, \<open>2 ^ 64 = 18446744073709551616\<close>).
\<close>

definition int64 :: "int \<Rightarrow> int" where
  "int64 x = (x + 9223372036854775808) mod 18446744073709551616 - 9223372036854775808"

section \<open>The reply rules of \<open>handleConn\<close>\<close>

text \<open>
  Lines 141 to 192 of \<open>cmd/server/main.go\<close>: the reply to a payload line. \<open>tokens[0]\<close>
  panics with an index out of range when there is no token; \<open>None\<close> is that panic.
\<close>

definition reply :: "string \<Rightarrow> string option" where
  "reply line =
     (let tokens = Fields line in
      if tokens = [] then None
      else
        Some
          (if tokens ! 0 = ''echo'' then
             (if length tokens \<ge> 2 then Join (drop 1 tokens) '' '' else [])
           else if tokens ! 0 = ''add'' then
             (if length tokens = 3 then
                (case (Sscanf_d (tokens ! 1), Sscanf_d (tokens ! 2)) of
                   (Some ai, Some bi) \<Rightarrow> Sprintf_d (int64 (ai + bi))
                 | _ \<Rightarrow> ''ERR: add expects two integers'')
              else ''ERR: add expects two arguments'')
           else if tokens ! 0 = ''mul'' then
             (if length tokens = 3 then
                (case (Sscanf_d (tokens ! 1), Sscanf_d (tokens ! 2)) of
                   (Some ai, Some bi) \<Rightarrow> Sprintf_d (int64 (ai * bi))
                 | _ \<Rightarrow> ''ERR: mul expects two integers'')
              else ''ERR: mul expects two arguments'')
           else if HasPrefix line ''bytes '' then
             Sprintf_d (int (length (TrimPrefix line ''bytes '')))
           else if HasPrefix line ''words '' then
             Sprintf_d (int (length (Fields (TrimPrefix line ''words ''))))
           else line @ '' from server''))"

section \<open>The store\<close>

text \<open>
  The rows of the two tables that \<open>db.AutoMigrate(&User{}, &Message{})\<close> creates.
  A \<open>time.Time\<close> is a number of nanoseconds on the server's clock. The field \<open>ID\<close> and
  the field \<open>CreatedAt\<close> of \<open>Message\<close> are named \<open>MsgID\<close> and \<open>MsgCreatedAt\<close>, since
  the fields of two records cannot share a name. \<open>UserID\<close> is a \<open>*uint\<close>: \<open>None\<close> is
  \<open>nil\<close>.
\<close>

record User =
  ID :: nat
  Name :: string
  Password :: string
  CreatedAt :: nat

record Message =
  MsgID :: nat
  UserID :: "nat option"
  UserName :: string
  Addr :: string
  Text :: string
  MsgCreatedAt :: nat

record database =
  users :: "User list"
  messages :: "Message list"

text \<open>
  A Go \<open>error\<close>: \<open>New s\<close> is \<open>errors.New(s)\<close>, \<open>External s\<close> an error that gorm, the
  SQLite driver or bcrypt returned, with its text. \<open>Error\<close> is the method \<open>err.Error()\<close>.
\<close>

datatype error = New string | External string

fun Error :: "error \<Rightarrow> string" where
  "Error (New s) = s"
| "Error (External s) = s"

text \<open>
  What the world outside the program decides during one iteration of the read loop:
  the clock, whether the store fails the query or the insert that the iteration
  issues (and with which text), what bcrypt answers, and whether \<open>conn.Write\<close> fails.
\<close>

record env =
  now :: nat
  select_err :: "string option"
  insert_err :: "string option"
  GenerateFromPassword :: "string \<Rightarrow> error + string"
  CompareHashAndPassword :: "string \<Rightarrow> string \<Rightarrow> bool"
  write_err :: bool

text \<open>
  The calls of gorm that the server makes, modelled from gorm's documented behaviour
  on the two tables. Rows are kept in primary key order; an insert gives the row the
  next primary key; the unique index on \<open>users.name\<close> rejects a second row with a name.
\<close>

definition next_ID :: "nat list \<Rightarrow> nat" where
  "next_ID ids = Suc (fold max ids 0)"

text \<open>\<open>db.Where("name = ?", name).First(&u).Error\<close>\<close>

definition db_Where_name_First :: "env \<Rightarrow> database \<Rightarrow> string \<Rightarrow> error + User" where
  "db_Where_name_First e d name =
     (case select_err e of
        Some m \<Rightarrow> Inl (External m)
      | None \<Rightarrow>
          (case find (\<lambda>u. Name u = name) (users d) of
             None \<Rightarrow> Inl (External ''record not found'')
           | Some u \<Rightarrow> Inr u))"

text \<open>\<open>db.Create(&u).Error\<close> for a \<open>User\<close>: the row as stored (with its key) and the new table.\<close>

definition db_Create_User :: "env \<Rightarrow> database \<Rightarrow> User \<Rightarrow> error + User \<times> database" where
  "db_Create_User e d u =
     (case insert_err e of
        Some m \<Rightarrow> Inl (External m)
      | None \<Rightarrow>
          if Name u \<in> set (map Name (users d))
          then Inl (External ''UNIQUE constraint failed: users.name'')
          else
            let u' = u\<lparr>ID := next_ID (map ID (users d))\<rparr>
            in Inr (u', d\<lparr>users := users d @ [u']\<rparr>))"

text \<open>\<open>db.Create(&msg).Error\<close> for a \<open>Message\<close>\<close>

definition db_Create_Message :: "env \<Rightarrow> database \<Rightarrow> Message \<Rightarrow> error + database" where
  "db_Create_Message e d m =
     (case insert_err e of
        Some t \<Rightarrow> Inl (External t)
      | None \<Rightarrow>
          Inr (d\<lparr>messages := messages d @ [m\<lparr>MsgID := next_ID (map MsgID (messages d))\<rparr>]\<rparr>))"

text \<open>\<open>db.Find(&users).Error\<close>\<close>

definition db_Find_Users :: "env \<Rightarrow> database \<Rightarrow> error + User list" where
  "db_Find_Users e d =
     (case select_err e of Some m \<Rightarrow> Inl (External m) | None \<Rightarrow> Inr (users d))"

text \<open>\<open>db.Order("created_at asc").Find(&msgs).Error\<close>\<close>

definition db_Order_created_at_Find :: "string option \<Rightarrow> database \<Rightarrow> error + Message list" where
  "db_Order_created_at_Find sel d =
     (case sel of Some m \<Rightarrow> Inl (External m) | None \<Rightarrow> Inr (sort_key MsgCreatedAt (messages d)))"

section \<open>\<open>handleCommand\<close>\<close>

text \<open>
  The result is \<open>None\<close> when \<open>parts[0]\<close> panics; otherwise the pair returned (\<open>Inl\<close> the
  error, \<open>Inr\<close> the response), the value of \<open>*currentUser\<close> afterwards and the store
  afterwards.
\<close>

definition handleCommand ::
  "env \<Rightarrow> database \<Rightarrow> string \<Rightarrow> User option \<Rightarrow> string \<Rightarrow> ((error + string) \<times> User option \<times> database) option" where
  "handleCommand e d line currentUser remote =
     (let parts = Fields line in
      if parts = [] then None
      else
        let cmd = TrimPrefix (parts ! 0) ''/'' in
        Some
          (if cmd = ''setname'' then
             (if length parts \<noteq> 3 then (Inl (New ''usage: /setname <name> <password>''), currentUser, d)
              else
                let name = parts ! 1; pw = parts ! 2 in
                case db_Where_name_First e d name of
                  Inr exists \<Rightarrow> (Inl (New ''name already taken''), currentUser, d)
                | Inl _ \<Rightarrow>
                    (case GenerateFromPassword e pw of
                       Inl err \<Rightarrow> (Inl err, currentUser, d)
                     | Inr h \<Rightarrow>
                         (case db_Create_User e d \<lparr>ID = 0, Name = name, Password = h, CreatedAt = now e\<rparr> of
                            Inl err \<Rightarrow> (Inl err, currentUser, d)
                          | Inr (u, d') \<Rightarrow>
                              (Inr (''OK: registered and logged in as '' @ name), Some u, d'))))
           else if cmd = ''connect'' then
             (if length parts \<noteq> 3 then (Inl (New ''usage: /connect <name> <password>''), currentUser, d)
              else
                let name = parts ! 1; pw = parts ! 2 in
                case db_Where_name_First e d name of
                  Inl _ \<Rightarrow> (Inl (New ''no such user''), currentUser, d)
                | Inr u \<Rightarrow>
                    if \<not> CompareHashAndPassword e (Password u) pw
                    then (Inl (New ''invalid password''), currentUser, d)
                    else (Inr (''OK: logged in as '' @ name), Some u, d))
           else if cmd = ''list'' then
             (case db_Find_Users e d of
                Inl err \<Rightarrow> (Inl err, currentUser, d)
              | Inr us \<Rightarrow>
                  let out = map Name
                        (filter (\<lambda>u. case currentUser of None \<Rightarrow> True | Some c \<Rightarrow> ID u \<noteq> ID c) us)
                  in if out = [] then (Inr ''(no other users)'', currentUser, d)
                     else (Inr (Join out '', ''), currentUser, d))
           else (Inl (New (''unknown command: '' @ cmd)), currentUser, d)))"

section \<open>\<open>sendHistory\<close> and \<open>handleConn\<close>\<close>

definition nl :: string where
  "nl = [CHR 0x0A]"

text \<open>\<open>t.Format(timeLayout)\<close> with \<open>timeLayout = "15:04"\<close>: hours and minutes, two digits each.\<close>

definition two_digits :: "nat \<Rightarrow> string" where
  "two_digits n = [''0123456789'' ! (n div 10 mod 10), ''0123456789'' ! (n mod 10)]"

definition Format :: "nat \<Rightarrow> string" where
  "Format t = two_digits (t div 3600000000000 mod 24) @ '':'' @ two_digits (t div 60000000000 mod 60)"

text \<open>The line that \<open>sendHistory\<close> writes for one message.\<close>

definition history_line :: "Message \<Rightarrow> string" where
  "history_line m =
     (let displayName = (if UserName m \<noteq> [] then UserName m else Addr m)
      in Format (MsgCreatedAt m) @ '' '' @ displayName @ '' '' @ Text m @ nl)"

text \<open>
  The loop of \<open>sendHistory\<close> over the messages, from the \<open>i\<close>-th call of \<open>conn.Write\<close> on:
  the arguments of the calls made, and the error returned. \<open>wfail i\<close> says that the
  \<open>i\<close>-th call fails.
\<close>

fun sendHistory_loop :: "(nat \<Rightarrow> bool) \<Rightarrow> nat \<Rightarrow> Message list \<Rightarrow> string list \<times> error option" where
  "sendHistory_loop wfail i [] = ([], None)"
| "sendHistory_loop wfail i (m # ms) =
     (if wfail i then ([history_line m], Some (External ''write error''))
      else
        let (ws, r) = sendHistory_loop wfail (Suc i) ms
        in (history_line m # ws, r))"

definition sendHistory :: "string option \<Rightarrow> (nat \<Rightarrow> bool) \<Rightarrow> database \<Rightarrow> string list \<times> error option" where
  "sendHistory sel wfail d =
     (case db_Order_created_at_Find sel d of
        Inl err \<Rightarrow> ([], Some err)
      | Inr msgs \<Rightarrow> sendHistory_loop wfail 0 msgs)"

text \<open>
  The state of one connection: the store (shared with the other connections, whose
  steps are not interleaved here), the local variable \<open>currentUser\<close> (\<open>None\<close> is \<open>nil\<close>)
  and the arguments of the calls of \<open>conn.Write\<close> made so far, in order. What the
  server prints on its standard output is left out.
\<close>

record conn =
  db :: database
  currentUser :: "User option"
  writes :: "string list"

datatype control = Continue conn | Return conn | Panic conn

fun conn_of :: "control \<Rightarrow> conn" where
  "conn_of (Continue st) = st"
| "conn_of (Return st) = st"
| "conn_of (Panic st) = st"

text \<open>
  One iteration of the \<open>for\<close> loop of \<open>handleConn\<close>, after \<open>reader.ReadString\<close> has returned
  \<open>raw\<close> without an error.
\<close>

definition iteration :: "string \<Rightarrow> env \<Rightarrow> string \<Rightarrow> conn \<Rightarrow> control" where
  "iteration remote e raw st =
     (let line = TrimSpace raw in
      if line = [] then Continue st
      else if HasPrefix line ''/'' then
        (case handleCommand e (db st) line (currentUser st) remote of
           None \<Rightarrow> Panic st
         | Some (Inl err, cu, d) \<Rightarrow>
             Continue (st\<lparr>db := d, currentUser := cu, writes := writes st @ [''ERR: '' @ Error err @ nl]\<rparr>)
         | Some (Inr resp, cu, d) \<Rightarrow>
             if resp \<noteq> [] then Continue (st\<lparr>db := d, currentUser := cu, writes := writes st @ [resp @ nl]\<rparr>)
             else Continue (st\<lparr>db := d, currentUser := cu\<rparr>))
      else
        let msg = \<lparr>MsgID = 0,
                   UserID = (case currentUser st of None \<Rightarrow> None | Some u \<Rightarrow> Some (ID u)),
                   UserName = (case currentUser st of None \<Rightarrow> [] | Some u \<Rightarrow> Name u),
                   Addr = remote, Text = line, MsgCreatedAt = now e\<rparr>;
            d = (case db_Create_Message e (db st) msg of Inl err \<Rightarrow> db st | Inr d' \<Rightarrow> d')
        in case reply line of
             None \<Rightarrow> Panic (st\<lparr>db := d\<rparr>)
           | Some r \<Rightarrow>
               if write_err e then Return (st\<lparr>db := d, writes := writes st @ [r @ nl]\<rparr>)
               else Continue (st\<lparr>db := d, writes := writes st @ [r @ nl]\<rparr>))"

text \<open>
  The loop: the lines read, each with what the world decides during its iteration.
  After the last of them \<open>ReadString\<close> returns an error and \<open>handleConn\<close> returns.
\<close>

datatype outcome = Closed conn | Crashed conn

fun state_of :: "outcome \<Rightarrow> conn" where
  "state_of (Closed st) = st"
| "state_of (Crashed st) = st"

fun loop :: "string \<Rightarrow> (env \<times> string) list \<Rightarrow> conn \<Rightarrow> outcome" where
  "loop remote [] st = Closed st"
| "loop remote ((e, raw) # rest) st =
     (case iteration remote e raw st of
        Continue st' \<Rightarrow> loop remote rest st'
      | Return st' \<Rightarrow> Closed st'
      | Panic st' \<Rightarrow> Crashed st')"

text \<open>
  \<open>handleConn\<close>: the history is sent (its error is only printed), then the loop runs
  from \<open>currentUser = nil\<close>.
\<close>

definition handleConn ::
  "string \<Rightarrow> string option \<Rightarrow> (nat \<Rightarrow> bool) \<Rightarrow> (env \<times> string) list \<Rightarrow> database \<Rightarrow> outcome" where
  "handleConn remote sel wfail inputs d =
     loop remote inputs \<lparr>db = d, currentUser = None, writes = fst (sendHistory sel wfail d)\<rparr>"

section \<open>Concrete values for the examples\<close>

text \<open>
  A world in which nothing fails, with a stand-in for bcrypt; an empty store; a fresh
  connection; and the row that registering \<open>alice\<close> in the empty store creates.
\<close>

definition env0 :: env where
  "env0 = \<lparr>now = 0, select_err = None, insert_err = None,
     GenerateFromPassword = (\<lambda>pw. Inr (''$2a$'' @ pw)),
     CompareHashAndPassword = (\<lambda>h pw. h = ''$2a$'' @ pw),
     write_err = False\<rparr>"

definition db0 :: database where
  "db0 = \<lparr>users = [], messages = []\<rparr>"

definition conn0 :: conn where
  "conn0 = \<lparr>db = db0, currentUser = None, writes = []\<rparr>"

definition alice :: User where
  "alice = \<lparr>ID = 1, Name = ''alice'', Password = ''$2a$secret'', CreatedAt = 0\<rparr>"

text \<open>
  A world in which the store answers every statement with \<open>database is locked\<close>, and one
  in which \<open>conn.Write\<close> fails; two rows of the message table, the first sent at 12:34
  from an address, the second at 09:30 by \<open>alice\<close>.
\<close>

definition env_locked :: env where
  "env_locked = env0\<lparr>select_err := Some ''database is locked'', insert_err := Some ''database is locked''\<rparr>"

definition env_write_fails :: env where
  "env_write_fails = env0\<lparr>write_err := True\<rparr>"

definition hello :: Message where
  "hello = \<lparr>MsgID = 1, UserID = None, UserName = [], Addr = ''10.0.0.7:5121'', Text = ''hello'',
     MsgCreatedAt = 45296000000000\<rparr>"

definition hi_alice :: Message where
  "hi_alice = \<lparr>MsgID = 2, UserID = Some 1, UserName = ''alice'', Addr = ''10.0.0.9:4000'', Text = ''hi all'',
     MsgCreatedAt = 34200000000000\<rparr>"

section \<open>Decoding and splitting: basic facts\<close>

declare runes.simps [simp del]

lemma runes_Nil [simp]: "runes [] = []"
  by (simp add: runes.simps)

lemma DecodeRune_ascii: "b < 128 \<Longrightarrow> DecodeRune (b # bs) = (b, 1)"
  by (simp add: DecodeRune_def RuneSelf_def)

lemma runes_Cons_ascii: "(of_char c :: nat) < 128 \<Longrightarrow> runes (c # cs) = (of_char c, [c]) # runes cs"
  by (subst runes.simps) (simp add: bytes_of_def DecodeRune_ascii)

lemma Fields_bytes: "Fields (''bytes '' @ rest) = ''bytes'' # Fields rest"
  by (simp add: Fields_def FieldsFunc_def runes_Cons_ascii IsSpace_def)

lemma Fields_words: "Fields (''words '' @ rest) = ''words'' # Fields rest"
  by (simp add: Fields_def FieldsFunc_def runes_Cons_ascii IsSpace_def)

text \<open>The equations that evaluate the string functions on a line of ASCII bytes.\<close>

lemmas eval_strings = Fields_def FieldsFunc_def TrimSpace_def TrimLeftFunc_def TrimRightFunc_def
  runes_Cons_ascii IsSpace_def HasPrefix_def TrimPrefix_def nl_def

section \<open>Runes of a string\<close>

lemma first_bounds: "first s0 = Some (sz, lo, hi) \<Longrightarrow> 2 \<le> sz \<and> sz \<le> 4 \<and> 128 \<le> lo"
  by (auto simp: first_def split: if_splits)

lemma IsSpace_RuneError [simp]: "\<not> IsSpace RuneError"
  by (simp add: IsSpace_def RuneError_def)

lemma DecodeRune_width_le: "snd (DecodeRune s) \<le> length s"
proof (cases "first (s ! 0)")
  case None
  then show ?thesis
    by (cases s) (auto simp: DecodeRune_def Let_def)
next
  case (Some t)
  obtain sz lo hi where t: "t = (sz, lo, hi)" by (cases t)
  from Some t have "2 \<le> sz" "sz \<le> 4" using first_bounds by blast+
  with Some t show ?thesis
    by (cases s) (auto simp: DecodeRune_def Let_def Suc_le_eq)
qed

lemma DecodeRune_append_space:
  assumes "IsSpace (fst (DecodeRune p))"
  shows "DecodeRune (p @ q) = DecodeRune p"
proof (cases "p = []")
  case True
  with assms show ?thesis by (simp add: DecodeRune_def)
next
  case False
  then have p0: "(p @ q) ! 0 = p ! 0" "0 < length p"
    by (simp_all add: nth_append)
  show ?thesis
  proof (cases "p ! 0 < RuneSelf")
    case True
    with p0 False show ?thesis by (simp add: DecodeRune_def Let_def)
  next
    case hi: False
    show ?thesis
    proof (cases "first (p ! 0)")
      case None
      with hi p0 False show ?thesis by (simp add: DecodeRune_def Let_def)
    next
      case (Some t)
      obtain sz lo hi' where t: "t = (sz, lo, hi')" by (cases t)
      from Some t have b: "2 \<le> sz" using first_bounds by blast
      from assms hi Some t False have len: "sz \<le> length p"
        by (auto simp: DecodeRune_def Let_def split: if_splits)
      have i1: "(p @ q) ! 1 = p ! 1" using b len by (simp add: nth_append)
      have i2: "2 < sz \<Longrightarrow> (p @ q) ! 2 = p ! 2" using len by (simp add: nth_append)
      have i3: "3 < sz \<Longrightarrow> (p @ q) ! 3 = p ! 3" using len by (simp add: nth_append)
      from hi Some t len p0 i1 i2 i3 show ?thesis
        by (auto simp: DecodeRune_def Let_def)
    qed
  qed
qed

lemma DecodeRune_append_ascii:
  assumes "p \<noteq> []" and "b < 128"
  shows "DecodeRune (p @ b # q) = DecodeRune p"
proof -
  from assms(1) have p0: "(p @ b # q) ! 0 = p ! 0" "0 < length p"
    by (simp_all add: nth_append)
  show ?thesis
  proof (cases "p ! 0 < RuneSelf")
    case True
    with p0 show ?thesis by (simp add: DecodeRune_def Let_def)
  next
    case hi: False
    show ?thesis
    proof (cases "first (p ! 0)")
      case None
      with hi p0 show ?thesis by (simp add: DecodeRune_def Let_def)
    next
      case (Some t)
      obtain sz lo hi' where t: "t = (sz, lo, hi')" by (cases t)
      from Some t have b: "2 \<le> sz" "sz \<le> 4" "128 \<le> lo" using first_bounds by blast+
      have n: "\<And>i. i < length p \<Longrightarrow> (p @ b # q) ! i = p ! i"
        by (simp add: nth_append)
      have m: "(p @ b # q) ! length p = b"
        by simp
      consider "length p = 1" | "length p = 2" | "length p = 3" | "4 \<le> length p"
        using p0(2) by linarith
      then show ?thesis
      proof cases
        case 1
        with hi Some t b p0 m assms(2) show ?thesis
          by (auto simp: DecodeRune_def Let_def)
      next
        case 2
        with hi Some t b p0 m assms(2) n [of 1] show ?thesis
          by (auto simp: DecodeRune_def Let_def)
      next
        case 3
        with hi Some t b p0 m assms(2) n [of 1] n [of 2] show ?thesis
          by (auto simp: DecodeRune_def Let_def)
      next
        case 4
        with hi Some t b p0 n [of 1] n [of 2] n [of 3] show ?thesis
          by (auto simp: DecodeRune_def Let_def)
      qed
    qed
  qed
qed

lemma runes_Cons:
  "s \<noteq> [] \<Longrightarrow>
     runes s = (fst (DecodeRune (bytes_of s)), take (snd (DecodeRune (bytes_of s))) s)
               # runes (drop (snd (DecodeRune (bytes_of s))) s)"
  by (subst runes.simps) simp

lemma concat_runes: "concat (map snd (runes s)) = s"
proof (induction s rule: runes.induct)
  case (1 s)
  show ?case
  proof (cases "s = []")
    case True
    then show ?thesis by simp
  next
    case False
    with 1 show ?thesis by (simp add: runes_Cons)
  qed
qed

lemma runes_suffix: "runes s = pre @ suf \<Longrightarrow> runes (concat (map snd suf)) = suf"
proof (induction s arbitrary: pre rule: runes.induct)
  case (1 s)
  show ?case
  proof (cases pre)
    case Nil
    with 1(2) have "suf = runes s" by simp
    then show ?thesis by (simp add: concat_runes)
  next
    case (Cons x pre')
    with 1(2) have ne: "s \<noteq> []" by auto
    from 1(2) Cons ne have "runes (drop (snd (DecodeRune (bytes_of s))) s) = pre' @ suf"
      by (simp add: runes_Cons)
    with 1(1) ne show ?thesis by blast
  qed
qed

lemma runes_append_ascii:
  "(of_char c :: nat) < 128 \<Longrightarrow> runes (x @ c # y) = runes x @ (of_char c, [c]) # runes y"
proof (induction x rule: runes.induct)
  case (1 s)
  show ?case
  proof (cases "s = []")
    case True
    with 1(2) show ?thesis by (simp add: runes_Cons_ascii)
  next
    case False
    let ?w = "snd (DecodeRune (bytes_of s))"
    from False 1(2) have d: "DecodeRune (bytes_of (s @ c # y)) = DecodeRune (bytes_of s)"
      by (simp add: bytes_of_def DecodeRune_append_ascii)
    have w: "?w \<le> length s"
      using DecodeRune_width_le [of "bytes_of s"] by (simp add: bytes_of_def)
    from 1(1) [OF False 1(2)]
    have ih: "runes (drop ?w s @ c # y) = runes (drop ?w s) @ (of_char c, [c]) # runes y" .
    have "runes (s @ c # y) = (fst (DecodeRune (bytes_of s)), take ?w s) # runes (drop ?w s @ c # y)"
      using w by (subst runes_Cons) (simp_all add: d)
    with ih False show ?thesis
      by (simp add: runes_Cons [of s])
  qed
qed

lemma FieldsFunc_loop_append:
  "f r \<Longrightarrow> FieldsFunc_loop f (rs1 @ (r, bs) # rs2) start
     = FieldsFunc_loop f rs1 start @ FieldsFunc_loop f rs2 None"
proof (induction rs1 arbitrary: start)
  case Nil
  then show ?case by (cases start) simp_all
next
  case (Cons x rs1)
  obtain r' bs' where x: "x = (r', bs')" by (cases x)
  from Cons show ?case by (cases start) (simp_all add: x)
qed

lemma Fields_append_space: "Fields (x @ CHR '' '' # y) = Fields x @ Fields y"
  by (simp add: Fields_def FieldsFunc_def runes_append_ascii FieldsFunc_loop_append IsSpace_def)

lemma FieldsFunc_loop_Some: "FieldsFunc_loop f rs (Some cur) \<noteq> []"
proof (induction rs arbitrary: cur)
  case Nil
  show ?case by simp
next
  case (Cons x rs)
  obtain r bs where x: "x = (r, bs)" by (cases x)
  from Cons show ?case by (simp add: x)
qed

lemma Fields_nonempty:
  assumes "s \<noteq> []" and "\<not> IsSpace (fst (DecodeRune (bytes_of s)))"
  shows "Fields s \<noteq> []"
  using assms by (simp add: Fields_def FieldsFunc_def runes_Cons FieldsFunc_loop_Some)

lemma runes_TrimLeftFunc:
  "runes (TrimLeftFunc s f) = dropWhile (\<lambda>x. f (fst x)) (runes s)"
proof -
  have "runes s = takeWhile (\<lambda>x. f (fst x)) (runes s) @ dropWhile (\<lambda>x. f (fst x)) (runes s)"
    by simp
  then show ?thesis
    unfolding TrimLeftFunc_def by (rule runes_suffix)
qed

lemma TrimSpace_first_rune:
  assumes "TrimSpace raw \<noteq> []"
  shows "\<not> IsSpace (fst (DecodeRune (bytes_of (TrimSpace raw))))"
proof
  let ?sp = "\<lambda>x :: nat \<times> string. IsSpace (fst x)"
  let ?s1 = "TrimLeftFunc raw IsSpace"
  let ?rs1 = "runes ?s1"
  let ?rs2 = "rev (dropWhile ?sp (rev ?rs1))"
  let ?t = "TrimSpace raw"
  assume sp: "IsSpace (fst (DecodeRune (bytes_of ?t)))"
  have t: "?t = concat (map snd ?rs2)"
    by (simp add: TrimSpace_def TrimRightFunc_def)
  have "?rs1 = ?rs2 @ rev (takeWhile ?sp (rev ?rs1))"
    by (metis rev_append rev_rev_ident takeWhile_dropWhile_id)
  then have "concat (map snd ?rs1) = ?t @ concat (map snd (rev (takeWhile ?sp (rev ?rs1))))"
    unfolding t by (metis concat_append map_append)
  then obtain q where q: "?s1 = ?t @ q"
    by (simp add: concat_runes)
  from sp have "DecodeRune (bytes_of ?t @ bytes_of q) = DecodeRune (bytes_of ?t)"
    by (rule DecodeRune_append_space)
  with q have d: "DecodeRune (bytes_of ?s1) = DecodeRune (bytes_of ?t)"
    by (simp add: bytes_of_def)
  from assms q have ne: "?s1 \<noteq> []" by auto
  then have "?rs1 \<noteq> []"
    by (simp add: runes_Cons)
  then have "\<not> ?sp (hd ?rs1)"
    unfolding runes_TrimLeftFunc by (metis (mono_tags, lifting) hd_dropWhile)
  with ne have "\<not> IsSpace (fst (DecodeRune (bytes_of ?s1)))"
    by (simp add: runes_Cons [of ?s1])
  with d sp show False by simp
qed

section \<open>The reply rules\<close>

text \<open>
  C1, at the line \<open>add 3x 5\<close>: \<open>Sscanf\<close> reads the digits of \<open>3x\<close>, stops at \<open>x\<close> and
  returns no error, so the reply is the sum \<open>8\<close> and not \<open>ERR: add expects two integers\<close>;
  \<open>mul 3x 5\<close> is answered \<open>15\<close> in the same way. A token with no leading digits is
  refused, as in \<open>add 3 x\<close>.
\<close>

theorem reply_add_partial_parse:
  "reply ''add 3x 5'' = Some ''8'' \<and> reply ''mul 3x 5'' = Some ''15''
   \<and> reply ''add 3 x'' = Some ''ERR: add expects two integers''"
  by (simp add: reply_def Fields_def FieldsFunc_def runes_Cons_ascii IsSpace_def
    Sscanf_d_def scanInt_def scanNumber_def accept_def bytes_of_def ParseInt_def ParseUint_def
    Sprintf_d_def int64_def)

text \<open>
  C9: a line that begins with the six bytes \<open>bytes \<close> is answered with the number of
  bytes after them, in decimal; a line that begins with \<open>words \<close> is answered with the
  number of white space separated tokens after that prefix.
\<close>

theorem reply_bytes_words:
  "reply (''bytes '' @ rest) = Some (Sprintf_d (int (length rest)))
   \<and> reply (''words '' @ rest) = Some (Sprintf_d (int (length (Fields rest))))"
  by (simp only: reply_def Fields_bytes Fields_words) (simp add: HasPrefix_def TrimPrefix_def Let_def)

lemma Fields_add: "Fields (''add '' @ a @ '' '' @ b) = ''add'' # Fields a @ Fields b"
proof -
  have "Fields (''add'' @ CHR '' '' # (a @ CHR '' '' # b)) = Fields ''add'' @ Fields a @ Fields b"
    by (simp only: Fields_append_space)
  moreover have "Fields ''add'' = [''add'']"
    by (simp add: eval_strings)
  ultimately show ?thesis by simp
qed

lemma Fields_mul: "Fields (''mul '' @ a @ '' '' @ b) = ''mul'' # Fields a @ Fields b"
proof -
  have "Fields (''mul'' @ CHR '' '' # (a @ CHR '' '' # b)) = Fields ''mul'' @ Fields a @ Fields b"
    by (simp only: Fields_append_space)
  moreover have "Fields ''mul'' = [''mul'']"
    by (simp add: eval_strings)
  ultimately show ?thesis by simp
qed

lemma two_tokens_swap:
  assumes "length (xs @ ys) = 2"
  shows "((xs @ ys) ! 0 = (ys @ xs) ! 0 \<and> (xs @ ys) ! 1 = (ys @ xs) ! 1)
       \<or> ((xs @ ys) ! 0 = (ys @ xs) ! 1 \<and> (xs @ ys) ! 1 = (ys @ xs) ! 0)"
proof -
  from assms have "length xs = 0 \<and> length ys = 2 \<or> length xs = 1 \<and> length ys = 1
      \<or> length xs = 2 \<and> length ys = 0"
    by (simp only: length_append) arith
  then show ?thesis
    by (elim disjE conjE) (simp_all add: nth_append)
qed

text \<open>
  C8: the reply to \<open>add a b\<close> is the reply to \<open>add b a\<close>, and the reply to \<open>mul a b\<close> is
  the reply to \<open>mul b a\<close>, for all strings \<open>a\<close> and \<open>b\<close> (tokens that scan as integers or
  not, and also strings that split into several tokens or none): the sum and the
  product wrap around in the same way in both orders, and the error texts do not
  depend on the order.
\<close>

theorem add_mul_commute:
  "reply (''add '' @ a @ '' '' @ b) = reply (''add '' @ b @ '' '' @ a)
   \<and> reply (''mul '' @ a @ '' '' @ b) = reply (''mul '' @ b @ '' '' @ a)"
proof -
  let ?xs = "Fields a" and ?ys = "Fields b"
  define ga where "ga = (\<lambda>s t. case (Sscanf_d s, Sscanf_d t) of
           (Some ai, Some bi) \<Rightarrow> Sprintf_d (int64 (ai + bi))
         | _ \<Rightarrow> ''ERR: add expects two integers'')"
  define gm where "gm = (\<lambda>s t. case (Sscanf_d s, Sscanf_d t) of
           (Some ai, Some bi) \<Rightarrow> Sprintf_d (int64 (ai * bi))
         | _ \<Rightarrow> ''ERR: mul expects two integers'')"
  have sym_add: "ga s t = ga t s" for s t
    unfolding ga_def by (simp add: add.commute split: option.splits)
  have sym_mul: "gm s t = gm t s" for s t
    unfolding gm_def by (simp add: mult.commute split: option.splits)
  have ra: "reply line = Some (if length ts = 2 then ga (ts ! 0) (ts ! 1)
       else ''ERR: add expects two arguments'')" if "Fields line = ''add'' # ts" for line ts
    using that unfolding ga_def by (auto simp: reply_def split: option.splits)
  have rm: "reply line = Some (if length ts = 2 then gm (ts ! 0) (ts ! 1)
       else ''ERR: mul expects two arguments'')" if "Fields line = ''mul'' # ts" for line ts
    using that unfolding gm_def by (auto simp: reply_def split: option.splits)
  have len: "length (?xs @ ?ys) = length (?ys @ ?xs)" by simp
  have add: "reply (''add '' @ a @ '' '' @ b) = reply (''add '' @ b @ '' '' @ a)"
  proof (cases "length (?xs @ ?ys) = 2")
    case True
    with len have l2: "length (?ys @ ?xs) = 2" by simp
    from two_tokens_swap [OF True]
    have "ga ((?xs @ ?ys) ! 0) ((?xs @ ?ys) ! 1) = ga ((?ys @ ?xs) ! 0) ((?ys @ ?xs) ! 1)"
      using sym_add by auto
    with True l2 show ?thesis
      by (simp only: ra [OF Fields_add] if_True)
  next
    case False
    with len have "length (?ys @ ?xs) \<noteq> 2" by simp
    with False show ?thesis
      by (simp only: ra [OF Fields_add] if_False)
  qed
  have mul: "reply (''mul '' @ a @ '' '' @ b) = reply (''mul '' @ b @ '' '' @ a)"
  proof (cases "length (?xs @ ?ys) = 2")
    case True
    with len have l2: "length (?ys @ ?xs) = 2" by simp
    from two_tokens_swap [OF True]
    have "gm ((?xs @ ?ys) ! 0) ((?xs @ ?ys) ! 1) = gm ((?ys @ ?xs) ! 0) ((?ys @ ?xs) ! 1)"
      using sym_mul by auto
    with True l2 show ?thesis
      by (simp only: rm [OF Fields_mul] if_True)
  next
    case False
    with len have "length (?ys @ ?xs) \<noteq> 2" by simp
    with False show ?thesis
      by (simp only: rm [OF Fields_mul] if_False)
  qed
  from add mul show ?thesis by simp
qed

section \<open>The first token\<close>

text \<open>
  C10: when a line is not empty after \<open>strings.TrimSpace\<close>, \<open>strings.Fields\<close> of the trimmed
  line has at least one token; so \<open>tokens[0]\<close> in the reply rules and \<open>parts[0]\<close> in
  \<open>handleCommand\<close> are in bounds (neither function panics), and an iteration of the read
  loop never panics.
\<close>

theorem first_token_in_bounds:
  assumes "TrimSpace raw \<noteq> []"
  shows "Fields (TrimSpace raw) \<noteq> []
    \<and> reply (TrimSpace raw) \<noteq> None
    \<and> handleCommand e d (TrimSpace raw) cu remote \<noteq> None
    \<and> (\<forall>st'. iteration remote e raw st \<noteq> Panic st')"
proof -
  from assms have f: "Fields (TrimSpace raw) \<noteq> []"
    by (simp add: Fields_nonempty TrimSpace_first_rune)
  then have r: "reply (TrimSpace raw) \<noteq> None"
    by (simp add: reply_def Let_def)
  from f have h: "handleCommand e (db st) (TrimSpace raw) (currentUser st) remote \<noteq> None"
       "handleCommand e d (TrimSpace raw) cu remote \<noteq> None"
    by (simp_all add: handleCommand_def Let_def)
  from r h(1) have "\<forall>st'. iteration remote e raw st \<noteq> Panic st'"
    by (auto simp: iteration_def Let_def split: option.splits sum.splits prod.splits)
  with f r h(2) show ?thesis by simp
qed

theorem first_token_in_bounds_witness:
  "TrimSpace (''  add 3 5 '' @ nl) \<noteq> []
   \<and> Fields (TrimSpace (''  add 3 5 '' @ nl)) = [''add'', ''3'', ''5'']
   \<and> reply (TrimSpace (''  add 3 5 '' @ nl)) \<noteq> None
   \<and> handleCommand env0 db0 (TrimSpace (''  add 3 5 '' @ nl)) None ''10.0.0.7:5121'' \<noteq> None
   \<and> (\<forall>st'. iteration ''10.0.0.7:5121'' env0 (''  add 3 5 '' @ nl) conn0 \<noteq> Panic st')"
proof -
  have t: "TrimSpace (''  add 3 5 '' @ nl) = ''add 3 5''"
    by (simp add: eval_strings)
  have h: "TrimSpace (''  add 3 5 '' @ nl) \<noteq> []"
    unfolding t by simp
  have f: "Fields (TrimSpace (''  add 3 5 '' @ nl)) = [''add'', ''3'', ''5'']"
    unfolding t by (simp add: eval_strings)
  from first_token_in_bounds [OF h, of env0 db0 None "''10.0.0.7:5121''" conn0] h f
  show ?thesis by simp
qed

section \<open>Commands and the session\<close>

lemma handleCommand_error_keeps:
  "handleCommand e d line cu remote = Some (Inl err, cu', d') \<Longrightarrow> cu' = cu \<and> d' = d"
  by (auto simp: handleCommand_def Let_def split: if_splits sum.splits prod.splits)

lemma db_Create_User_messages:
  "db_Create_User e d u = Inr (u', d') \<Longrightarrow> messages d' = messages d"
  by (auto simp: db_Create_User_def Let_def split: option.splits if_splits)

lemma handleCommand_messages:
  "handleCommand e d line cu remote = Some (r, cu', d') \<Longrightarrow> messages d' = messages d"
  by (auto simp: handleCommand_def Let_def dest: db_Create_User_messages split: if_splits sum.splits prod.splits)

lemma handleCommand_keeps_user:
  "handleCommand e d line cu remote = Some (r, cu', d') \<Longrightarrow> cu \<noteq> None \<Longrightarrow> cu' \<noteq> None"
  by (auto simp: handleCommand_def Let_def split: if_splits sum.splits prod.splits)

lemma iteration_keeps_user:
  "currentUser st \<noteq> None \<Longrightarrow> currentUser (conn_of (iteration remote e raw st)) \<noteq> None"
  by (auto simp: iteration_def Let_def dest: handleCommand_keeps_user split: if_splits option.splits sum.splits prod.splits)

lemma loop_keeps_user:
  "currentUser st \<noteq> None \<Longrightarrow> currentUser (state_of (loop remote inputs st)) \<noteq> None"
proof (induction inputs arbitrary: st)
  case Nil
  then show ?case by simp
next
  case (Cons x inputs)
  obtain e raw where x: "x = (e, raw)" by (cases x)
  from Cons.prems have k: "currentUser (conn_of (iteration remote e raw st)) \<noteq> None"
    by (rule iteration_keeps_user)
  show ?case
  proof (cases "iteration remote e raw st")
    case (Continue st')
    with k have "currentUser st' \<noteq> None" by simp
    then have "currentUser (state_of (loop remote inputs st')) \<noteq> None" by (rule Cons.IH)
    with Continue x show ?thesis by simp
  next
    case (Return st')
    with k x show ?thesis by simp
  next
    case (Panic st')
    with k x show ?thesis by simp
  qed
qed

lemma handleCommand_binds:
  "handleCommand e d line cu remote = Some (Inr resp, cu', d') \<Longrightarrow>
   TrimPrefix (Fields line ! 0) ''/'' \<noteq> ''list'' \<Longrightarrow> cu' \<noteq> None"
  by (auto simp: handleCommand_def Let_def split: if_splits sum.splits prod.splits)

text \<open>
  C2: when the handling of a command line fails, that is \<open>handleCommand\<close> returns an
  error, the iteration makes one call of \<open>conn.Write\<close> with \<open>ERR: \<close>, the text of the
  error and a newline, the loop goes on (\<open>Continue\<close>), and \<open>currentUser\<close> and the store
  are what they were.
\<close>

theorem command_error_reported:
  assumes "HasPrefix (TrimSpace raw) ''/''"
    and "handleCommand e (db st) (TrimSpace raw) (currentUser st) remote = Some (Inl err, cu, d)"
  shows "cu = currentUser st \<and> d = db st
    \<and> iteration remote e raw st = Continue (st\<lparr>writes := writes st @ [''ERR: '' @ Error err @ nl]\<rparr>)"
proof -
  from assms(2) have k: "cu = currentUser st \<and> d = db st"
    by (rule handleCommand_error_keeps)
  from assms(1) have ne: "TrimSpace raw \<noteq> []"
    by (auto simp: HasPrefix_def)
  from assms k ne show ?thesis
    by (simp add: iteration_def)
qed

text \<open>
  C4: \<open>handleConn\<close> starts its loop with \<open>currentUser = nil\<close>; a \<open>/setname\<close> or \<open>/connect\<close>
  that succeeds leaves \<open>currentUser\<close> set; and from a state in which \<open>currentUser\<close> is set,
  no sequence of lines, whatever the world does, ends in a state where it is \<open>nil\<close>.
\<close>

theorem session_never_reverts:
  "handleConn remote sel wfail inputs d =
     loop remote inputs \<lparr>db = d, currentUser = None, writes = fst (sendHistory sel wfail d)\<rparr>
   \<and> (handleCommand e d' line cu remote = Some (Inr resp, cu', d'')
        \<and> TrimPrefix (Fields line ! 0) ''/'' \<noteq> ''list'' \<longrightarrow> cu' \<noteq> None)
   \<and> (currentUser st \<noteq> None \<longrightarrow> currentUser (state_of (loop remote inputs st)) \<noteq> None)"
  using handleCommand_binds [of e d' line cu remote resp cu' d'']
  by (simp add: handleConn_def loop_keeps_user)

theorem command_error_reported_witness:
  "HasPrefix (TrimSpace (''/nope'' @ nl)) ''/''
   \<and> handleCommand env0 (db conn0) (TrimSpace (''/nope'' @ nl)) (currentUser conn0) ''10.0.0.7:5121''
       = Some (Inl (New ''unknown command: nope''), None, db0)
   \<and> iteration ''10.0.0.7:5121'' env0 (''/nope'' @ nl) conn0
       = Continue (conn0\<lparr>writes := [''ERR: unknown command: nope'' @ nl]\<rparr>)"
proof -
  have t: "TrimSpace (''/nope'' @ nl) = ''/nope''"
    by (simp add: eval_strings)
  have h1: "HasPrefix (TrimSpace (''/nope'' @ nl)) ''/''"
    by (simp only: t) (simp add: HasPrefix_def)
  have h2: "handleCommand env0 (db conn0) (TrimSpace (''/nope'' @ nl)) (currentUser conn0) ''10.0.0.7:5121''
       = Some (Inl (New ''unknown command: nope''), None, db0)"
    by (simp only: t) (simp add: handleCommand_def eval_strings conn0_def)
  from command_error_reported [OF h1 h2] h1 h2 show ?thesis
    by (simp add: conn0_def)
qed

theorem session_never_reverts_witness:
  "handleCommand env0 db0 ''/setname alice secret'' None ''10.0.0.7:5121''
     = Some (Inr ''OK: registered and logged in as alice'', Some alice, db0\<lparr>users := [alice]\<rparr>)
   \<and> TrimPrefix (Fields ''/setname alice secret'' ! 0) ''/'' \<noteq> ''list''
   \<and> Some alice \<noteq> None
   \<and> currentUser (conn0\<lparr>currentUser := Some alice\<rparr>) \<noteq> None
   \<and> currentUser (state_of (loop ''10.0.0.7:5121''
         [(env0, ''/connect bob x'' @ nl), (env0, ''hello'' @ nl)] (conn0\<lparr>currentUser := Some alice\<rparr>))) \<noteq> None"
proof -
  have h1: "handleCommand env0 db0 ''/setname alice secret'' None ''10.0.0.7:5121''
     = Some (Inr ''OK: registered and logged in as alice'', Some alice, db0\<lparr>users := [alice]\<rparr>)"
    by (simp add: handleCommand_def eval_strings db_Where_name_First_def db_Create_User_def
        env0_def db0_def alice_def next_ID_def Let_def)
  have h2: "TrimPrefix (Fields ''/setname alice secret'' ! 0) ''/'' \<noteq> ''list''"
    by (simp add: eval_strings)
  have h3: "currentUser (conn0\<lparr>currentUser := Some alice\<rparr>) \<noteq> None"
    by simp
  from session_never_reverts [where remote = "''10.0.0.7:5121''" and e = env0 and d' = db0
      and line = "''/setname alice secret''" and cu = None
      and resp = "''OK: registered and logged in as alice''" and cu' = "Some alice"
      and d'' = "db0\<lparr>users := [alice]\<rparr>" and st = "conn0\<lparr>currentUser := Some alice\<rparr>"
      and inputs = "[(env0, ''/connect bob x'' @ nl), (env0, ''hello'' @ nl)]"] h1 h2 h3
  show ?thesis by simp
qed

section \<open>What is stored\<close>

lemma TrimSpace_hello: "TrimSpace (''hello'' @ nl) = ''hello''"
  by (simp add: eval_strings)

lemma reply_hello: "reply ''hello'' = Some ''hello from server''"
  by (simp add: reply_def eval_strings)

text \<open>
  C5 as stated fails when the store rejects the insert: the payload line \<open>hello\<close> is
  answered, and no row is appended.
\<close>

theorem payload_persisted_counterexample:
  "TrimSpace (''hello'' @ nl) = ''hello''
   \<and> iteration ''10.0.0.7:5121'' env_locked (''hello'' @ nl) conn0
        = Continue (conn0\<lparr>writes := [''hello from server'' @ nl]\<rparr>)
   \<and> messages (db (conn0\<lparr>writes := [''hello from server'' @ nl]\<rparr>)) = []"
proof -
  have "iteration ''10.0.0.7:5121'' env_locked (''hello'' @ nl) conn0
        = Continue (conn0\<lparr>writes := [''hello from server'' @ nl]\<rparr>)"
    unfolding iteration_def TrimSpace_hello
    by (simp add: reply_hello HasPrefix_def db_Create_Message_def env_locked_def env0_def conn0_def)
  then show ?thesis
    unfolding TrimSpace_hello by (simp add: conn0_def db0_def)
qed

text \<open>
  C5, as the code has it: an iteration on a line that is not blank leaves the message
  table as it was when the line is a command (it starts with \<open>/\<close>), whether the
  command succeeds or fails, and also when the store fails the insert; otherwise it
  appends exactly one row, with the name and key of \<open>currentUser\<close> if there is one,
  the remote address, the line as text and the time of the iteration, whatever the
  reply to the line is.
\<close>

theorem payload_persisted_commands_not:
  assumes "TrimSpace raw \<noteq> []"
  shows "messages (db (conn_of (iteration remote e raw st))) =
     (if HasPrefix (TrimSpace raw) ''/'' \<or> insert_err e \<noteq> None then messages (db st)
      else messages (db st) @
        [\<lparr>MsgID = next_ID (map MsgID (messages (db st))),
          UserID = (case currentUser st of None \<Rightarrow> None | Some u \<Rightarrow> Some (ID u)),
          UserName = (case currentUser st of None \<Rightarrow> [] | Some u \<Rightarrow> Name u),
          Addr = remote, Text = TrimSpace raw, MsgCreatedAt = now e\<rparr>])"
proof (cases "HasPrefix (TrimSpace raw) ''/''")
  case True
  with assms show ?thesis
    by (auto simp: iteration_def dest: handleCommand_messages split: option.splits sum.splits prod.splits)
next
  case False
  with assms show ?thesis
    by (auto simp: iteration_def Let_def db_Create_Message_def split: option.splits)
qed

lemma TrimSpace_add3x: "TrimSpace (''add 3 x'' @ nl) = ''add 3 x''"
  by (simp add: eval_strings)

text \<open>
  The line \<open>add 3 x\<close> is answered with an error text and is stored all the same.
\<close>

theorem payload_persisted_commands_not_witness:
  "TrimSpace (''add 3 x'' @ nl) \<noteq> []
   \<and> reply (TrimSpace (''add 3 x'' @ nl)) = Some ''ERR: add expects two integers''
   \<and> messages (db (conn_of (iteration ''10.0.0.7:5121'' env0 (''add 3 x'' @ nl) conn0)))
      = [\<lparr>MsgID = 1, UserID = None, UserName = [], Addr = ''10.0.0.7:5121'', Text = ''add 3 x'',
          MsgCreatedAt = 0\<rparr>]"
proof -
  have h: "TrimSpace (''add 3 x'' @ nl) \<noteq> []"
    unfolding TrimSpace_add3x by simp
  have r: "reply ''add 3 x'' = Some ''ERR: add expects two integers''"
    by (simp add: reply_def eval_strings Sscanf_d_def scanInt_def scanNumber_def accept_def
        bytes_of_def ParseInt_def ParseUint_def)
  from payload_persisted_commands_not [OF h, of "''10.0.0.7:5121''" env0 conn0]
  show ?thesis
    unfolding TrimSpace_add3x
    by (simp add: r HasPrefix_def env0_def conn0_def db0_def next_ID_def)
qed

lemma find_Name:
  "name \<in> set (map Name us) \<Longrightarrow> \<exists>u. find (\<lambda>u. Name u = name) us = Some u"
  by (cases "find (\<lambda>u. Name u = name) us") (auto simp: find_None_iff)

lemma handleCommand_keeps_names:
  "handleCommand e d line cu remote = Some (r, cu', d') \<Longrightarrow>
   name \<in> set (map Name (users d)) \<Longrightarrow> name \<in> set (map Name (users d'))"
  by (auto simp: handleCommand_def Let_def db_Create_User_def
      split: if_splits sum.splits prod.splits option.splits)

lemma iteration_keeps_names:
  "name \<in> set (map Name (users (db st))) \<Longrightarrow>
   name \<in> set (map Name (users (db (conn_of (iteration remote e raw st)))))"
proof (cases "TrimSpace raw \<noteq> [] \<and> HasPrefix (TrimSpace raw) ''/''")
  case True
  assume n: "name \<in> set (map Name (users (db st)))"
  show ?thesis
  proof (cases "handleCommand e (db st) (TrimSpace raw) (currentUser st) remote")
    case None
    with True n show ?thesis by (simp add: iteration_def)
  next
    case (Some t)
    obtain r cu' d' where t: "t = (r, cu', d')" by (cases t)
    from Some t n have "name \<in> set (map Name (users d'))"
      using handleCommand_keeps_names by blast
    with True Some t show ?thesis
      by (cases r) (simp_all add: iteration_def)
  qed
next
  case False
  assume "name \<in> set (map Name (users (db st)))"
  with False show ?thesis
    by (auto simp: iteration_def Let_def db_Create_Message_def split: option.splits)
qed

lemma loop_keeps_names:
  "name \<in> set (map Name (users (db st))) \<Longrightarrow>
   name \<in> set (map Name (users (db (state_of (loop remote inputs st)))))"
proof (induction inputs arbitrary: st)
  case Nil
  then show ?case by simp
next
  case (Cons x inputs)
  obtain e raw where x: "x = (e, raw)" by (cases x)
  from Cons.prems have k: "name \<in> set (map Name (users (db (conn_of (iteration remote e raw st)))))"
    by (rule iteration_keeps_names)
  show ?case
  proof (cases "iteration remote e raw st")
    case (Continue st')
    with k have "name \<in> set (map Name (users (db st')))" by simp
    then have "name \<in> set (map Name (users (db (state_of (loop remote inputs st')))))"
      by (rule Cons.IH)
    with Continue x show ?thesis by simp
  next
    case (Return st')
    with k x show ?thesis by simp
  next
    case (Panic st')
    with k x show ?thesis by simp
  qed
qed

text \<open>
  C7, as the code has it: a \<open>/setname\<close> that succeeds leaves a row with that name in the
  user table (and no step of any connection removes a row, \<open>loop_keeps_names\<close>). A
  \<open>/setname\<close> with a name that a row of the user table already has returns an error
  whatever the password is, and leaves the store and \<open>currentUser\<close> as they were; the
  error is \<open>name already taken\<close> whenever the lookup of the name itself does not fail.
\<close>

theorem register_taken_name:
  assumes "Fields line = [''/setname'', name, pw]"
  shows "(handleCommand e d line cu remote = Some (Inr resp, cu', d')
           \<longrightarrow> name \<in> set (map Name (users d')))
       \<and> (name \<in> set (map Name (users d)) \<longrightarrow>
            (\<exists>err. handleCommand e d line cu remote = Some (Inl err, cu, d)
                \<and> (select_err e = None \<longrightarrow> err = New ''name already taken'')))"
proof (intro conjI impI)
  assume "handleCommand e d line cu remote = Some (Inr resp, cu', d')"
  with assms show "name \<in> set (map Name (users d'))"
    by (auto simp: handleCommand_def TrimPrefix_def HasPrefix_def db_Create_User_def Let_def
        split: sum.splits option.splits if_splits)
next
  assume n: "name \<in> set (map Name (users d))"
  then obtain u where u: "find (\<lambda>u. Name u = name) (users d) = Some u"
    using find_Name by blast
  show "\<exists>err. handleCommand e d line cu remote = Some (Inl err, cu, d)
          \<and> (select_err e = None \<longrightarrow> err = New ''name already taken'')"
  proof (cases "select_err e")
    case None
    with u assms show ?thesis
      by (simp add: handleCommand_def TrimPrefix_def HasPrefix_def db_Where_name_First_def)
  next
    case (Some m)
    with assms n show ?thesis
      by (auto simp: handleCommand_def TrimPrefix_def HasPrefix_def db_Where_name_First_def
          db_Create_User_def split: sum.splits option.splits)
  qed
qed

text \<open>
  C7 as stated fails when the lookup of the name fails: with a store that answers
  \<open>database is locked\<close>, the error reported for the taken name \<open>alice\<close> is not
  \<open>name already taken\<close>.
\<close>

theorem register_taken_name_counterexample:
  "Fields ''/setname alice other'' = [''/setname'', ''alice'', ''other'']
   \<and> ''alice'' \<in> set (map Name (users (db0\<lparr>users := [alice]\<rparr>)))
   \<and> handleCommand env_locked (db0\<lparr>users := [alice]\<rparr>) ''/setname alice other'' None ''10.0.0.7:5121''
      = Some (Inl (External ''database is locked''), None, db0\<lparr>users := [alice]\<rparr>)
   \<and> Error (External ''database is locked'') \<noteq> ''name already taken''"
  by (simp add: handleCommand_def eval_strings db_Where_name_First_def db_Create_User_def
      env_locked_def env0_def db0_def alice_def)

text \<open>
  With a store that answers, registering \<open>alice\<close> a second time with another password is
  refused with \<open>name already taken\<close>.
\<close>

theorem register_taken_name_witness:
  "Fields ''/setname alice secret'' = [''/setname'', ''alice'', ''secret'']
   \<and> handleCommand env0 db0 ''/setname alice secret'' None ''10.0.0.7:5121''
       = Some (Inr ''OK: registered and logged in as alice'', Some alice, db0\<lparr>users := [alice]\<rparr>)
   \<and> ''alice'' \<in> set (map Name (users (db0\<lparr>users := [alice]\<rparr>)))
   \<and> Fields ''/setname alice other'' = [''/setname'', ''alice'', ''other'']
   \<and> select_err env0 = None
   \<and> handleCommand env0 (db0\<lparr>users := [alice]\<rparr>) ''/setname alice other'' None ''10.0.0.9:4000''
      = Some (Inl (New ''name already taken''), None, db0\<lparr>users := [alice]\<rparr>)"
proof -
  have f1: "Fields ''/setname alice secret'' = [''/setname'', ''alice'', ''secret'']"
    by (simp add: eval_strings)
  have s1: "handleCommand env0 db0 ''/setname alice secret'' None ''10.0.0.7:5121''
       = Some (Inr ''OK: registered and logged in as alice'', Some alice, db0\<lparr>users := [alice]\<rparr>)"
    by (simp add: handleCommand_def eval_strings db_Where_name_First_def db_Create_User_def
        env0_def db0_def alice_def next_ID_def Let_def)
  from register_taken_name [OF f1, of env0 db0 None "''10.0.0.7:5121''"
      "''OK: registered and logged in as alice''" "Some alice" "db0\<lparr>users := [alice]\<rparr>"] s1
  have h2: "''alice'' \<in> set (map Name (users (db0\<lparr>users := [alice]\<rparr>)))"
    by simp
  have f2: "Fields ''/setname alice other'' = [''/setname'', ''alice'', ''other'']"
    by (simp add: eval_strings)
  have h3: "select_err env0 = None"
    by (simp add: env0_def)
  from register_taken_name [OF f2, of env0 "db0\<lparr>users := [alice]\<rparr>" None "''10.0.0.9:4000''"] h2 h3
  have "handleCommand env0 (db0\<lparr>users := [alice]\<rparr>) ''/setname alice other'' None ''10.0.0.9:4000''
      = Some (Inl (New ''name already taken''), None, db0\<lparr>users := [alice]\<rparr>)"
    by auto
  with f1 s1 h2 f2 h3 show ?thesis by simp
qed

section \<open>What is written to the connection\<close>

text \<open>
  C3, at two inputs. The result of \<open>conn.Write\<close> is dropped on the command path (lines
  109 and 111): when the write of the reply to \<open>/nope\<close> fails, the loop goes on and the
  next line, \<open>echo hi\<close>, is read and answered. On the payload path (lines 195 to 199)
  a failed write ends the loop: after \<open>echo a\<close> nothing more is read.
\<close>

theorem command_write_error_ignored:
  "writes (state_of (loop ''10.0.0.7:5121''
      [(env_write_fails, ''/nope'' @ nl), (env0, ''echo hi'' @ nl)] conn0))
     = [''ERR: unknown command: nope'' @ nl, ''hi'' @ nl]
   \<and> writes (state_of (loop ''10.0.0.7:5121''
      [(env_write_fails, ''echo a'' @ nl), (env0, ''echo hi'' @ nl)] conn0))
     = [''a'' @ nl]"
proof -
  have t1: "TrimSpace (''/nope'' @ nl) = ''/nope''"
    by (simp add: eval_strings)
  have t2: "TrimSpace (''echo hi'' @ nl) = ''echo hi''"
    by (simp add: eval_strings)
  have t3: "TrimSpace (''echo a'' @ nl) = ''echo a''"
    by (simp add: eval_strings)
  have r2: "reply ''echo hi'' = Some ''hi''"
    by (simp add: reply_def eval_strings)
  have r3: "reply ''echo a'' = Some ''a''"
    by (simp add: reply_def eval_strings)
  have c: "handleCommand env_write_fails (db conn0) ''/nope'' (currentUser conn0) ''10.0.0.7:5121''
       = Some (Inl (New ''unknown command: nope''), None, db0)"
    by (simp add: handleCommand_def eval_strings conn0_def)
  have w: "write_err env_write_fails" "\<not> write_err env0"
    by (simp_all add: env_write_fails_def env0_def)
  have i1: "iteration ''10.0.0.7:5121'' env_write_fails (''/nope'' @ nl) conn0
       = Continue (conn0\<lparr>writes := [''ERR: unknown command: nope'' @ nl]\<rparr>)"
    unfolding iteration_def t1 by (simp add: c HasPrefix_def) (simp add: conn0_def)
  have i2: "writes (conn_of (iteration ''10.0.0.7:5121'' env0 (''echo hi'' @ nl)
         (conn0\<lparr>writes := [''ERR: unknown command: nope'' @ nl]\<rparr>)))
       = [''ERR: unknown command: nope'' @ nl, ''hi'' @ nl]
       \<and> (\<exists>st. iteration ''10.0.0.7:5121'' env0 (''echo hi'' @ nl)
         (conn0\<lparr>writes := [''ERR: unknown command: nope'' @ nl]\<rparr>) = Continue st)"
    unfolding iteration_def t2 by (simp add: r2 w HasPrefix_def)
  have i3: "writes (conn_of (iteration ''10.0.0.7:5121'' env_write_fails (''echo a'' @ nl) conn0))
       = [''a'' @ nl]
       \<and> (\<exists>st. iteration ''10.0.0.7:5121'' env_write_fails (''echo a'' @ nl) conn0 = Return st)"
    unfolding iteration_def t3 by (simp add: r3 w HasPrefix_def conn0_def)
  from i2 obtain st2 where st2: "iteration ''10.0.0.7:5121'' env0 (''echo hi'' @ nl)
         (conn0\<lparr>writes := [''ERR: unknown command: nope'' @ nl]\<rparr>) = Continue st2"
    by blast
  from i3 obtain st3 where st3: "iteration ''10.0.0.7:5121'' env_write_fails (''echo a'' @ nl) conn0 = Return st3"
    by blast
  from i2 st2 have a: "writes st2 = [''ERR: unknown command: nope'' @ nl, ''hi'' @ nl]"
    by simp
  from i3 st3 have b: "writes st3 = [''a'' @ nl]"
    by simp
  show ?thesis
    by (simp only: loop.simps i1 st2 st3 control.case prod.case state_of.simps a b)
qed

lemma sendHistory_loop_no_failure:
  "\<forall>j. \<not> wfail j \<Longrightarrow> sendHistory_loop wfail i ms = (map history_line ms, None)"
  by (induction ms arbitrary: i) simp_all

text \<open>
  C6, as the code has it: when the query of the message table succeeds and no write
  fails, \<open>sendHistory\<close> writes one line per row of the table, for the rows in
  non-decreasing order of \<open>CreatedAt\<close>, each line being the time as \<open>15:04\<close>, the user name
  if it is not empty and the address otherwise, and the text, separated by single
  spaces and ended by a newline; \<open>handleConn\<close> starts from exactly these writes.
\<close>

theorem history_replay:
  assumes "sel = None" and "\<forall>i. \<not> wfail i"
  shows "\<exists>msgs. sendHistory sel wfail d = (map history_line msgs, None)
           \<and> handleConn remote sel wfail [] d
               = Closed \<lparr>db = d, currentUser = None, writes = map history_line msgs\<rparr>
           \<and> mset msgs = mset (messages d)
           \<and> sorted (map MsgCreatedAt msgs)
           \<and> (\<forall>m. history_line m =
                 Format (MsgCreatedAt m) @ '' '' @ (if UserName m \<noteq> [] then UserName m else Addr m)
                   @ '' '' @ Text m @ nl)"
proof -
  let ?msgs = "sort_key MsgCreatedAt (messages d)"
  from assms have s: "sendHistory sel wfail d = (map history_line ?msgs, None)"
    by (simp add: sendHistory_def db_Order_created_at_Find_def sendHistory_loop_no_failure)
  then have h: "handleConn remote sel wfail [] d
      = Closed \<lparr>db = d, currentUser = None, writes = map history_line ?msgs\<rparr>"
    by (simp add: handleConn_def)
  have m: "mset ?msgs = mset (messages d)"
    by simp
  have o: "sorted (map MsgCreatedAt ?msgs)"
    by simp
  have f: "\<forall>m. history_line m =
      Format (MsgCreatedAt m) @ '' '' @ (if UserName m \<noteq> [] then UserName m else Addr m)
        @ '' '' @ Text m @ nl"
    by (simp add: history_line_def)
  from s h m o f show ?thesis by blast
qed

text \<open>
  C6 as stated fails when the query fails (nothing is written) and when a write fails
  (\<open>sendHistory\<close> returns at once: of two rows only the first line is written).
\<close>

theorem history_replay_counterexample:
  "fst (sendHistory (Some ''database is locked'') (\<lambda>i. False) (db0\<lparr>messages := [hello]\<rparr>)) = []
   \<and> map history_line (sort_key MsgCreatedAt (messages (db0\<lparr>messages := [hello]\<rparr>)))
       = [''12:34 10.0.0.7:5121 hello'' @ nl]
   \<and> fst (sendHistory None (\<lambda>i. i = 0) (db0\<lparr>messages := [hello, hi_alice]\<rparr>))
       = [''09:30 alice hi all'' @ nl]"
  by (simp add: sendHistory_def db_Order_created_at_Find_def history_line_def Format_def
      two_digits_def hello_def hi_alice_def db0_def)

text \<open>
  Two rows stored out of order are replayed in the order of their times.
\<close>

theorem history_replay_witness:
  "(None :: string option) = None \<and> (\<forall>i. \<not> (\<lambda>i. False) i)
   \<and> sendHistory None (\<lambda>i. False) (db0\<lparr>messages := [hello, hi_alice]\<rparr>)
       = ([''09:30 alice hi all'' @ nl, ''12:34 10.0.0.7:5121 hello'' @ nl], None)"
proof -
  have h1: "(None :: string option) = None" by simp
  have h2: "\<forall>i. \<not> (\<lambda>i :: nat. False) i" by simp
  from history_replay [OF h1 h2, of "db0\<lparr>messages := [hello, hi_alice]\<rparr>" "''10.0.0.7:5121''"]
  obtain msgs where
    a: "sendHistory None (\<lambda>i. False) (db0\<lparr>messages := [hello, hi_alice]\<rparr>) = (map history_line msgs, None)"
    by blast
  have "sendHistory None (\<lambda>i. False) (db0\<lparr>messages := [hello, hi_alice]\<rparr>)
       = ([''09:30 alice hi all'' @ nl, ''12:34 10.0.0.7:5121 hello'' @ nl], None)"
    by (simp add: sendHistory_def db_Order_created_at_Find_def history_line_def Format_def
      two_digits_def hello_def hi_alice_def db0_def)
  with a show ?thesis by simp
qed

end
